theory Spec2Isabelle
  imports Main "HOL-Library.Sublist"
begin

section \<open>JavaScript values and plain objects\<close>

text \<open>
  The values that flow through \<open>callsites.mjs\<close> and \<open>record.mjs\<close>. Numbers are the
  integers (line, column, length, status code, port) plus \<open>NaN\<close>; objects and functions
  that the code only passes around (the receiver \<open>this\<close>, a function reference) are opaque
  references compared by identity.
\<close>

datatype val =
    Undefined
  | Null
  | Bool bool
  | Num int
  | NaN
  | BigInt int
  | Str string
  | Arr "val list"
  | Ref nat

text \<open>JavaScript's \<open>ToBoolean\<close>: what \<open>if (value)\<close> and \<open>a || b\<close> test.\<close>

fun truthy :: "val \<Rightarrow> bool" where
  "truthy Undefined = False"
| "truthy Null = False"
| "truthy (Bool b) = b"
| "truthy (Num n) = (n \<noteq> 0)"
| "truthy NaN = False"
| "truthy (BigInt n) = (n \<noteq> 0)"
| "truthy (Str s) = (s \<noteq> [])"
| "truthy (Arr vs) = True"
| "truthy (Ref r) = True"

text \<open>\<open>a || b\<close>\<close>

definition or_else :: "val \<Rightarrow> val \<Rightarrow> val" where
  "or_else a b = (if truthy a then a else b)"

text \<open>
  A plain object with string keys: its own properties in insertion order (none of the keys
  used here is an array index, so insertion order is enumeration order).
\<close>

type_synonym obj = "(string \<times> val) list"

text \<open>\<open>o[k] = v\<close>: an existing key keeps its position, a new key goes last.\<close>

fun obj_set :: "string \<Rightarrow> val \<Rightarrow> obj \<Rightarrow> obj" where
  "obj_set k v [] = [(k, v)]"
| "obj_set k v ((k', v') # rest) =
     (if k' = k then (k', v) # rest else (k', v') # obj_set k v rest)"

text \<open>\<open>o[k]\<close>: a missing property reads as \<open>undefined\<close>.\<close>

definition obj_get :: "obj \<Rightarrow> string \<Rightarrow> val" where
  "obj_get ob k = (case map_of ob k of None \<Rightarrow> Undefined | Some v \<Rightarrow> v)"

text \<open>\<open>Object.keys(o)\<close>\<close>

definition keys :: "obj \<Rightarrow> string list" where
  "keys ob = map fst ob"

text \<open>
  Every exception the two modules can raise is a \<open>TypeError\<close> of the runtime, tagged here
  with the expression that raised it. The source defines and raises no
  \<open>UnsupportedPlatform\<close> error; the constructor exists so that its absence can be stated.
\<close>

datatype exn = TypeError string | UnsupportedPlatform

section \<open>callsites.mjs\<close>

definition CALLSITE_METHODS :: "string list" where
  "CALLSITE_METHODS =
    [''getThis'', ''getTypeName'', ''getFunction'', ''getFunctionName'', ''getMethodName'',
     ''getFileName'', ''getLineNumber'', ''getColumnNumber'', ''getEvalOrigin'',
     ''isToplevel'', ''isEval'', ''isNative'', ''isConstructor'', ''isAsync'',
     ''isPromiseAll'', ''getPromiseIndex'']"

text \<open>
  A raw \<open>CallSite\<close> handle of the runtime: the methods it has, each with the value the
  call returns. Calling a method the handle does not have is a \<open>TypeError\<close>.
\<close>

type_synonym callsite = "(string \<times> val) list"

definition call_method :: "callsite \<Rightarrow> string \<Rightarrow> exn + val" where
  "call_method cs method =
     (case map_of cs method of
        None \<Rightarrow> Inl (TypeError ''cs[method] is not a function'')
      | Some v \<Rightarrow> Inr v)"

text \<open>\<open>s.replace(pat, rep)\<close> with a string pattern: the first occurrence only.\<close>

fun replace_first :: "string \<Rightarrow> string \<Rightarrow> string \<Rightarrow> string" where
  "replace_first pat rep [] = (if pat = [] then rep else [])"
| "replace_first pat rep (c # cs) =
     (if take (length pat) (c # cs) = pat then rep @ drop (length pat) (c # cs)
      else c # replace_first pat rep cs)"

text \<open>\<open>toLowerCase\<close> on one ASCII character.\<close>

definition toLowerCase :: "char \<Rightarrow> char" where
  "toLowerCase c =
     (case map_of (zip ''ABCDEFGHIJKLMNOPQRSTUVWXYZ'' ''abcdefghijklmnopqrstuvwxyz'') c of
        None \<Rightarrow> c
      | Some l \<Rightarrow> l)"

text \<open>
  \<open>noGet = method.replace("get", "")\<close>, then
  \<open>noGet[0].toLowerCase() + noGet.substring(1)\<close>; \<open>noGet[0]\<close> of the empty string is
  \<open>undefined\<close>, whose \<open>toLowerCase\<close> cannot be read.
\<close>

definition property_of :: "string \<Rightarrow> exn + string" where
  "property_of method =
     (case replace_first ''get'' '''' method of
        [] \<Rightarrow> Inl (TypeError ''noGet[0] is undefined'')
      | c # rest \<Rightarrow> Inr (toLowerCase c # rest))"

text \<open>The body of the \<open>for\<close> loop of \<open>parseCallsite\<close>, over the methods still to visit.\<close>

fun parse_loop :: "callsite \<Rightarrow> string list \<Rightarrow> obj \<Rightarrow> exn + obj" where
  "parse_loop cs [] result = Inr result"
| "parse_loop cs (method # methods) result =
     (case property_of method of
        Inl e \<Rightarrow> Inl e
      | Inr property \<Rightarrow>
          (case call_method cs method of
             Inl e \<Rightarrow> Inl e
           | Inr v \<Rightarrow> parse_loop cs methods (obj_set property v result)))"

definition parseCallsite :: "callsite \<Rightarrow> exn + obj" where
  "parseCallsite cs = parse_loop cs CALLSITE_METHODS []"

text \<open>\<open>stack.map(parseCallsite)\<close>: the first exception ends the map.\<close>

fun map_parse :: "callsite list \<Rightarrow> exn + obj list" where
  "map_parse [] = Inr []"
| "map_parse (cs # rest) =
     (case parseCallsite cs of
        Inl e \<Rightarrow> Inl e
      | Inr d \<Rightarrow> (case map_parse rest of Inl e \<Rightarrow> Inl e | Inr ds \<Rightarrow> Inr (d # ds)))"

text \<open>
  The process-wide \<open>Error.prepareStackTrace\<close>: unset, some function of the embedding
  program (known by its identity), or the arrow function \<open>(_, callsites) => callsites\<close>
  that \<open>callsites\<close> installs.
\<close>

datatype hook = Hook_undefined | Hook_function nat | Hook_raw_frames

text \<open>
  What \<open>error.stack\<close> holds when it is read: the array of raw frames (a runtime with the
  V8 stack trace API, asked through a hook that hands the frames back), a string (a runtime
  that formats the stack itself, or a stack that was formatted before), or nothing.
\<close>

datatype stackval = Frames "callsite list" | Text string | Missing

text \<open>
  An error object, as far as \<open>callsites\<close> uses it: what reading its \<open>stack\<close> property
  does under the hook in force at that moment (a value, or an exception of the getter).
\<close>

type_synonym errobj = "hook \<Rightarrow> exn + stackval"

text \<open>
  The argument of \<open>callsites\<close>: none (the default \<open>new StackOnlyError()\<close>; the class is
  private to the module, so \<open>error instanceof StackOnlyError\<close> holds for the default
  only), or an error object of the caller.
\<close>

datatype errarg = Default | Given errobj

definition is_StackOnlyError :: "errarg \<Rightarrow> bool" where
  "is_StackOnlyError error = (case error of Default \<Rightarrow> True | Given x \<Rightarrow> False)"

text \<open>
  \<open>error.stack\<close>, read under the hook \<open>h\<close>; \<open>fresh\<close> is the error object that
  \<open>new StackOnlyError()\<close> makes in the call in progress.
\<close>

definition read_stack :: "errobj \<Rightarrow> errarg \<Rightarrow> hook \<Rightarrow> exn + stackval" where
  "read_stack fresh error h = (case error of Default \<Rightarrow> fresh h | Given e \<Rightarrow> e h)"

text \<open>\<open>stack.shift()\<close> on what was read: only an array has the method.\<close>

definition shift :: "stackval \<Rightarrow> exn + stackval" where
  "shift stack =
     (case stack of
        Frames fs \<Rightarrow> Inr (Frames (tl fs))
      | Text s \<Rightarrow> Inl (TypeError ''stack.shift is not a function'')
      | Missing \<Rightarrow> Inl (TypeError ''stack is undefined''))"

text \<open>\<open>stack.map(parseCallsite)\<close> on what was read.\<close>

definition map_stack :: "stackval \<Rightarrow> exn + obj list" where
  "map_stack stack =
     (case stack of
        Frames fs \<Rightarrow> map_parse fs
      | Text s \<Rightarrow> Inl (TypeError ''stack.map is not a function'')
      | Missing \<Rightarrow> Inl (TypeError ''stack is undefined''))"

text \<open>
  The \<open>try\<close> block of \<open>callsites\<close>: the hook is overwritten, the stack is read under the
  new hook, the first frame is dropped for the default error, every frame is parsed.
  Returns the outcome and the hook as the block leaves it.
\<close>

definition callsites_try :: "errobj \<Rightarrow> errarg \<Rightarrow> hook \<Rightarrow> (exn + obj list) \<times> hook" where
  "callsites_try fresh error h0 =
     (let h1 = Hook_raw_frames in
      (case read_stack fresh error h1 of
         Inl e \<Rightarrow> (Inl e, h1)
       | Inr stack \<Rightarrow>
           (if is_StackOnlyError error
            then (case shift stack of
                    Inl e \<Rightarrow> (Inl e, h1)
                  | Inr stack' \<Rightarrow> (map_stack stack', h1))
            else (map_stack stack, h1))))"

text \<open>
  \<open>callsites(error)\<close>: the hook is saved, the \<open>try\<close> block runs, and \<open>finally\<close> writes
  the saved hook back whatever the block did. Returns the outcome and the hook after the
  call.
\<close>

definition callsites :: "errobj \<Rightarrow> errarg \<Rightarrow> hook \<Rightarrow> (exn + obj list) \<times> hook" where
  "callsites fresh error h0 =
     (let prepareStackTrace_saved = h0;
          (outcome, h1) = callsites_try fresh error h0
      in (outcome, prepareStackTrace_saved))"

section \<open>record.mjs\<close>

definition properties :: "string list" where
  "properties =
    [''@timestamp'', ''message'', ''data'', ''log.level'', ''log.logger'',
     ''log.origin.file.column'', ''log.origin.file.line'', ''log.origin.file.name'',
     ''log.origin.file.path'', ''log.origin.function'',
     ''error.code'', ''error.id'', ''error.message'', ''error.stack_trace'', ''error.type'',
     ''service.name'', ''service.version'', ''service.environment'', ''service.id'',
     ''process.args'', ''process.args_count'', ''event.duration'',
     ''http.version'', ''http.request.id'', ''http.request.method'',
     ''http.request.mime_type'', ''http.response.body.content'',
     ''http.response.mime_type'', ''http.response.status_code'',
     ''url.domain'', ''url.extension'', ''url.fragment'', ''url.full'', ''url.password'',
     ''url.path'', ''url.port'', ''url.query'', ''url.scheme'', ''url.username'']"

text \<open>
  A \<open>LogRecord\<close> instance: the private field \<open>#callsites\<close> and the public properties,
  which a caller may assign, add or delete freely.
\<close>

record LogRecord =
  callsites_private :: "obj list"
  props :: obj

text \<open>
  What construction reads from the runtime: the error object a \<open>new StackOnlyError()\<close>
  gets, \<open>new Date().toISOString()\<close>, and \<open>Deno.args\<close> when \<open>globalThis.Deno\<close> exists.
\<close>

record env =
  marker :: errobj
  now_iso :: string
  deno_args :: "string list option"

text \<open>\<open>xs[i]\<close> on an array: out of range reads as \<open>undefined\<close>, here \<open>None\<close>.\<close>

definition index :: "'a list \<Rightarrow> nat \<Rightarrow> 'a option" where
  "index xs i = (if i < length xs then Some (xs ! i) else None)"

text \<open>\<open>s.lastIndexOf(c)\<close>: the position of the last \<open>c\<close> in \<open>s\<close>, or \<open>-1\<close>.\<close>

fun lastIndexOf :: "string \<Rightarrow> char \<Rightarrow> int" where
  "lastIndexOf [] c = - 1"
| "lastIndexOf (x # xs) c =
     (let r = lastIndexOf xs c in if 0 \<le> r then r + 1 else if x = c then 0 else - 1)"

text \<open>\<open>s.substring(start)\<close>: a negative start counts as 0, one past the end as the end.\<close>

definition substring :: "string \<Rightarrow> int \<Rightarrow> string" where
  "substring s start = drop (nat (max 0 start)) s"

text \<open>
  \<open>path.substring(path.lastIndexOf("/") + 1)\<close> for a truthy \<open>path\<close>. Only a string has
  both methods: the argument is evaluated first, so a value without \<open>lastIndexOf\<close> fails
  there (an opaque reference has no methods here), and an array, which has it, fails at
  the call of \<open>substring\<close>.
\<close>

definition path_tail :: "val \<Rightarrow> exn + val" where
  "path_tail path =
     (case path of
        Str s \<Rightarrow> Inr (Str (substring s (lastIndexOf s CHR ''/'' + 1)))
      | Arr vs \<Rightarrow> Inl (TypeError ''path.substring is not a function'')
      | other \<Rightarrow> Inl (TypeError ''path.lastIndexOf is not a function''))"

text \<open>
  \<open>#getOriginDetails()\<close>, given the value of \<open>this.#callsites\<close>. Reading \<open>fileName\<close> of
  an absent frame is a \<open>TypeError\<close>.
\<close>

definition getOriginDetails :: "obj list \<Rightarrow> exn + obj" where
  "getOriginDetails callsites_field =
     (case index callsites_field 2 of
        None \<Rightarrow> Inl (TypeError ''cs is undefined'')
      | Some cs \<Rightarrow>
          (let path = or_else (obj_get cs ''fileName'') (Str '''') in
           (case (if truthy path then path_tail path else Inr (Str '''')) of
              Inl e \<Rightarrow> Inl e
            | Inr fileName \<Rightarrow>
                Inr [(''column'', or_else (obj_get cs ''columnNumber'') (Num 0)),
                     (''line'', or_else (obj_get cs ''lineNumber'') (Num 0)),
                     (''path'', path),
                     (''fileName'', fileName),
                     (''function'', or_else (obj_get cs ''functionName'') (Str ''none''))])))"

text \<open>A run of assignments \<open>this[k] = v\<close>, first to last.\<close>

fun assign_all :: "(string \<times> val) list \<Rightarrow> obj \<Rightarrow> obj" where
  "assign_all [] ob = ob"
| "assign_all ((k, v) # kvs) ob = assign_all kvs (obj_set k v ob)"

text \<open>\<open>globalThis.Deno ? Deno.args : []\<close>\<close>

definition process_args :: "env \<Rightarrow> val list" where
  "process_args e = (case deno_args e of None \<Rightarrow> [] | Some as \<Rightarrow> map Str as)"

text \<open>The assignments of the constructor body, in source order.\<close>

definition constructor_body :: "env \<Rightarrow> obj \<Rightarrow> obj" where
  "constructor_body e originDetails =
     assign_all
       [(''@timestamp'', Str (now_iso e)),
        (''message'', Str ''''),
        (''data'', Str ''''),
        (''log.level'', Str ''''),
        (''log.logger'', Str ''unknown''),
        (''log.origin.file.column'', obj_get originDetails ''column''),
        (''log.origin.file.line'', obj_get originDetails ''line''),
        (''log.origin.file.name'', obj_get originDetails ''fileName''),
        (''log.origin.file.path'', obj_get originDetails ''path''),
        (''log.origin.function'', obj_get originDetails ''function''),
        (''error.code'', Str ''''),
        (''error.id'', Str ''''),
        (''error.message'', Str ''''),
        (''error.stack_trace'', Str ''''),
        (''error.type'', Str ''''),
        (''service.name'', Str ''''),
        (''service.version'', Str ''''),
        (''service.environment'', Str ''''),
        (''service.id'', Str ''''),
        (''process.args'', Arr (process_args e)),
        (''process.args_count'', Num (int (length (process_args e)))),
        (''event.duration'', Str ''''),
        (''http.version'', Str ''''),
        (''http.request.id'', Str ''''),
        (''http.request.method'', Str ''''),
        (''http.request.mime_type'', Str ''''),
        (''http.response.body.content'', Str ''''),
        (''http.response.mime_type'', Str ''''),
        (''http.response.status_code'', Num 0),
        (''url.domain'', Str ''''),
        (''url.extension'', Str ''''),
        (''url.fragment'', Str ''''),
        (''url.full'', Str ''''),
        (''url.password'', Str ''''),
        (''url.path'', Str ''''),
        (''url.port'', Num 0),
        (''url.query'', Str ''''),
        (''url.scheme'', Str ''''),
        (''url.username'', Str '''')]
       []"

text \<open>
  \<open>new LogRecord()\<close>: the field initialiser \<open>#callsites = callsites()\<close> runs first, then
  the constructor body, which calls \<open>#getOriginDetails()\<close>. An exception of either leaves
  no record. Returns the outcome and the hook after the construction.
\<close>

definition LogRecord_new :: "env \<Rightarrow> hook \<Rightarrow> (exn + LogRecord) \<times> hook" where
  "LogRecord_new e h0 =
     (case callsites (marker e) Default h0 of
        (Inl ex, h1) \<Rightarrow> (Inl ex, h1)
      | (Inr cs, h1) \<Rightarrow>
          (case getOriginDetails cs of
             Inl ex \<Rightarrow> (Inl ex, h1)
           | Inr originDetails \<Rightarrow>
               (Inr \<lparr>callsites_private = cs, props = constructor_body e originDetails\<rparr>, h1)))"

text \<open>
  The loop of \<open>toJSON\<close> over the keys still to visit: \<open>value = this[key]\<close>, copied into
  \<open>obj\<close> when truthy.
\<close>

fun toJSON_loop :: "obj \<Rightarrow> string list \<Rightarrow> obj \<Rightarrow> obj" where
  "toJSON_loop this [] ob = ob"
| "toJSON_loop this (key # rest) ob =
     (let v = obj_get this key
      in toJSON_loop this rest (if truthy v then obj_set key v ob else ob))"

definition toJSON :: "LogRecord \<Rightarrow> obj" where
  "toJSON r = toJSON_loop (props r) properties []"

section \<open>Reference definitions and sample inputs\<close>

text \<open>
  The descriptor the specification asks for: one field per probe, in probe order, each
  holding what the probe returns (read here with no regard to failure).
\<close>

definition probe :: "callsite \<Rightarrow> string \<Rightarrow> val" where
  "probe cs method = the (map_of cs method)"

definition expanded :: "callsite \<Rightarrow> obj" where
  "expanded cs =
    [(''this'', probe cs ''getThis''),
     (''typeName'', probe cs ''getTypeName''),
     (''function'', probe cs ''getFunction''),
     (''functionName'', probe cs ''getFunctionName''),
     (''methodName'', probe cs ''getMethodName''),
     (''fileName'', probe cs ''getFileName''),
     (''lineNumber'', probe cs ''getLineNumber''),
     (''columnNumber'', probe cs ''getColumnNumber''),
     (''evalOrigin'', probe cs ''getEvalOrigin''),
     (''isToplevel'', probe cs ''isToplevel''),
     (''isEval'', probe cs ''isEval''),
     (''isNative'', probe cs ''isNative''),
     (''isConstructor'', probe cs ''isConstructor''),
     (''isAsync'', probe cs ''isAsync''),
     (''isPromiseAll'', probe cs ''isPromiseAll''),
     (''promiseIndex'', probe cs ''getPromiseIndex'')]"

text \<open>A handle that has every method of \<open>CALLSITE_METHODS\<close>.\<close>

definition supports_all :: "callsite \<Rightarrow> bool" where
  "supports_all cs = list_all (\<lambda>m. map_of cs m \<noteq> None) CALLSITE_METHODS"

text \<open>A frame handle as V8 hands it out for a call of a named function in a module.\<close>

definition frame :: "val \<Rightarrow> val \<Rightarrow> string \<Rightarrow> string \<Rightarrow> int \<Rightarrow> int \<Rightarrow> callsite" where
  "frame this func fn file l c =
    [(''getThis'', this), (''getTypeName'', Null), (''getFunction'', func),
     (''getFunctionName'', Str fn), (''getMethodName'', Null), (''getFileName'', Str file),
     (''getLineNumber'', Num l), (''getColumnNumber'', Num c), (''getEvalOrigin'', Undefined),
     (''isToplevel'', Bool True), (''isEval'', Bool False), (''isNative'', Bool False),
     (''isConstructor'', Bool False), (''isAsync'', Bool False), (''isPromiseAll'', Bool False),
     (''getPromiseIndex'', Null)]"

text \<open>
  The stack of the test fixture: \<open>callsites()\<close> called at line 7, column 28 of
  \<open>test/fixtures/callsites.mjs\<close>, the innermost frame being \<open>callsites\<close> itself.
\<close>

definition fixture_stack :: "callsite list" where
  "fixture_stack =
    [frame Undefined Undefined ''callsites'' ''file:///lib/callsites.mjs'' 74 34,
     frame Undefined Undefined ''getFileDetails'' ''file:///test/fixtures/callsites.mjs'' 7 28]"

definition fixture_descriptor :: obj where
  "fixture_descriptor =
    [(''this'', Undefined), (''typeName'', Null), (''function'', Undefined),
     (''functionName'', Str ''getFileDetails''), (''methodName'', Null),
     (''fileName'', Str ''file:///test/fixtures/callsites.mjs''),
     (''lineNumber'', Num 7), (''columnNumber'', Num 28), (''evalOrigin'', Undefined),
     (''isToplevel'', Bool True), (''isEval'', Bool False), (''isNative'', Bool False),
     (''isConstructor'', Bool False), (''isAsync'', Bool False), (''isPromiseAll'', Bool False),
     (''promiseIndex'', Null)]"

text \<open>
  The same call site reached twice in sloppy mode: the receiver and the function are
  different references in the two runs.
\<close>

definition first_run :: "callsite list" where
  "first_run =
    [frame Undefined Undefined ''callsites'' ''file:///lib/callsites.mjs'' 74 34,
     frame (Ref 1) (Ref 2) ''handler'' ''file:///app/main.mjs'' 12 9]"

definition second_run :: "callsite list" where
  "second_run =
    [frame Undefined Undefined ''callsites'' ''file:///lib/callsites.mjs'' 74 34,
     frame (Ref 3) (Ref 4) ''handler'' ''file:///app/main.mjs'' 12 9]"

text \<open>
  Two raw frames that answer every probe alike, the receiver and the function apart; two
  descriptors with the same keys and the same values, \<open>this\<close> and \<open>function\<close> apart.
\<close>

definition same_frame :: "callsite \<Rightarrow> callsite \<Rightarrow> bool" where
  "same_frame a b =
     list_all (\<lambda>m. map_of a m = map_of b m)
       (filter (\<lambda>m. m \<noteq> ''getThis'' \<and> m \<noteq> ''getFunction'') CALLSITE_METHODS)"

definition same_descriptor :: "obj \<Rightarrow> obj \<Rightarrow> bool" where
  "same_descriptor d1 d2 =
     (keys d1 = keys d2 \<and>
      list_all (\<lambda>k. obj_get d1 k = obj_get d2 k)
        (filter (\<lambda>k. k \<noteq> ''this'' \<and> k \<noteq> ''function'') (keys d1)))"

text \<open>
  An error object of a runtime with the V8 stack trace API whose stack has not been
  formatted yet: the frame-returning hook gets the raw frames, anything else a string.
\<close>

definition v8_error :: "callsite list \<Rightarrow> errobj" where
  "v8_error fs h = (if h = Hook_raw_frames then Inr (Frames fs) else Inr (Text ''Error''))"

text \<open>An error object of a runtime without the API: \<open>stack\<close> is a string under any hook.\<close>

definition text_error :: errobj where
  "text_error h = Inr (Text ''@file:///test/fixtures/callsites.mjs:7:28'')"

text \<open>
  The specification's file name: what follows the last path separator of the path (the
  whole path when it has none).
\<close>

definition after_last_slash :: "string \<Rightarrow> string" where
  "after_last_slash p = rev (takeWhile (\<lambda>c. c \<noteq> CHR ''/'') (rev p))"

text \<open>
  A value \<open>CallSite.getFileName\<close> may return by its declaration (\<open>string | undefined\<close>),
  or any other falsy value.
\<close>

definition string_or_falsy :: "val \<Rightarrow> bool" where
  "string_or_falsy v = (case v of Str s \<Rightarrow> True | other \<Rightarrow> \<not> truthy other)"

text \<open>
  The stack when \<open>new LogRecord()\<close> runs at line 7, column 28 of a fixture: \<open>callsites\<close>,
  the field initialiser, the constructor, the code that instantiates the record.
\<close>

definition record_stack :: "callsite list" where
  "record_stack =
    [frame Undefined Undefined ''callsites'' ''file:///lib/callsites.mjs'' 74 34,
     frame (Ref 1) (Ref 2) ''<instance_members_initializer>'' ''file:///lib/record.mjs'' 215 16,
     frame (Ref 1) (Ref 3) ''LogRecord'' ''file:///lib/record.mjs'' 217 3,
     frame Undefined Undefined ''getRecord'' ''file:///test/fixtures/record.mjs'' 7 28]"

definition sample_env :: env where
  "sample_env =
    \<lparr>marker = v8_error record_stack, now_iso = ''2023-12-10T20:55:18.908Z'', deno_args = None\<rparr>"

text \<open>An environment whose stack is the two frames of \<open>fixture_stack\<close>.\<close>

definition shallow_env :: env where
  "shallow_env =
    \<lparr>marker = v8_error fixture_stack, now_iso = ''2023-12-10T20:55:18.908Z'',
     deno_args = Some [''--verbose'']\<rparr>"

definition sample_record :: LogRecord where
  "sample_record =
    \<lparr>callsites_private = map expanded (tl record_stack),
     props =
       [(''@timestamp'', Str ''2023-12-10T20:55:18.908Z''),
        (''message'', Str ''''),
        (''data'', Str ''''),
        (''log.level'', Str ''''),
        (''log.logger'', Str ''unknown''),
        (''log.origin.file.column'', Num 28),
        (''log.origin.file.line'', Num 7),
        (''log.origin.file.name'', Str ''record.mjs''),
        (''log.origin.file.path'', Str ''file:///test/fixtures/record.mjs''),
        (''log.origin.function'', Str ''getRecord''),
        (''error.code'', Str ''''),
        (''error.id'', Str ''''),
        (''error.message'', Str ''''),
        (''error.stack_trace'', Str ''''),
        (''error.type'', Str ''''),
        (''service.name'', Str ''''),
        (''service.version'', Str ''''),
        (''service.environment'', Str ''''),
        (''service.id'', Str ''''),
        (''process.args'', Arr []),
        (''process.args_count'', Num 0),
        (''event.duration'', Str ''''),
        (''http.version'', Str ''''),
        (''http.request.id'', Str ''''),
        (''http.request.method'', Str ''''),
        (''http.request.mime_type'', Str ''''),
        (''http.response.body.content'', Str ''''),
        (''http.response.mime_type'', Str ''''),
        (''http.response.status_code'', Num 0),
        (''url.domain'', Str ''''),
        (''url.extension'', Str ''''),
        (''url.fragment'', Str ''''),
        (''url.full'', Str ''''),
        (''url.password'', Str ''''),
        (''url.path'', Str ''''),
        (''url.port'', Num 0),
        (''url.query'', Str ''''),
        (''url.scheme'', Str ''''),
        (''url.username'', Str '''')]\<rparr>"

section \<open>Properties\<close>

subsection \<open>Plain objects\<close>

lemma keys_obj_set_old: "k \<in> set (keys ob) \<Longrightarrow> keys (obj_set k v ob) = keys ob"
  by (induction ob) (force simp: keys_def)+

lemma keys_obj_set_new: "k \<notin> set (keys ob) \<Longrightarrow> keys (obj_set k v ob) = keys ob @ [k]"
  by (induction ob) (auto simp: keys_def)

lemma keys_obj_set:
  "keys (obj_set k v ob) = (if k \<in> set (keys ob) then keys ob else keys ob @ [k])"
  by (simp add: keys_obj_set_old keys_obj_set_new)

lemma map_of_obj_set: "map_of (obj_set k v ob) = (map_of ob)(k \<mapsto> v)"
  by (induction ob) (auto simp: fun_eq_iff)

lemma obj_get_obj_set:
  "obj_get (obj_set k v ob) k' = (if k' = k then v else obj_get ob k')"
  by (simp add: obj_get_def map_of_obj_set)

subsection \<open>The hook around a capture\<close>

lemma callsites_try_hook: "snd (callsites_try fresh error h) = Hook_raw_frames"
  by (simp add: callsites_try_def Let_def split: sum.splits)

text \<open>
  C1. Whatever the argument, the runtime and the outcome (a result, or an exception raised
  while the stack is read, shifted or mapped), the hook after a call of \<open>callsites\<close> is
  the hook before it, although the \<open>try\<close> block always leaves the frame-returning
  function installed.
\<close>

theorem callsites_restores_hook:
  "snd (callsites fresh error h) = h \<and> snd (callsites_try fresh error h) = Hook_raw_frames"
  by (simp add: callsites_def callsites_try_hook split: prod.splits)

subsection \<open>Parsing one frame\<close>

lemma property_of_methods:
  "map property_of CALLSITE_METHODS =
    map Inr [''this'', ''typeName'', ''function'', ''functionName'', ''methodName'',
     ''fileName'', ''lineNumber'', ''columnNumber'', ''evalOrigin'', ''isToplevel'',
     ''isEval'', ''isNative'', ''isConstructor'', ''isAsync'', ''isPromiseAll'',
     ''promiseIndex'']"
  by (simp add: CALLSITE_METHODS_def property_of_def toLowerCase_def)

lemma parseCallsite_ok: "supports_all cs \<Longrightarrow> parseCallsite cs = Inr (expanded cs)"
  by (auto simp: supports_all_def parseCallsite_def CALLSITE_METHODS_def call_method_def
      property_of_def toLowerCase_def expanded_def probe_def)

lemma parse_loop_fail:
  "\<not> list_all (\<lambda>m. map_of cs m \<noteq> None) ms \<Longrightarrow> \<exists>e. parse_loop cs ms acc = Inl e"
  by (induction ms arbitrary: acc) (auto simp: call_method_def split: sum.splits)

lemma parseCallsite_Inr: "parseCallsite cs = Inr d \<Longrightarrow> supports_all cs \<and> d = expanded cs"
  using parse_loop_fail [of cs CALLSITE_METHODS "[]"] parseCallsite_ok [of cs]
  by (auto simp: parseCallsite_def supports_all_def)

lemma map_parse_ok: "list_all supports_all fs \<Longrightarrow> map_parse fs = Inr (map expanded fs)"
  by (induction fs) (simp_all add: parseCallsite_ok)

lemma map_parse_Inr: "map_parse fs = Inr ds \<Longrightarrow> list_all supports_all fs \<and> ds = map expanded fs"
  by (induction fs arbitrary: ds) (auto split: sum.splits dest: parseCallsite_Inr)

subsection \<open>What a capture returns\<close>

lemma callsites_Default:
  "fresh Hook_raw_frames = Inr (Frames fs) \<Longrightarrow> fst (callsites fresh Default h) = map_parse (tl fs)"
  by (simp add: callsites_def callsites_try_def read_stack_def is_StackOnlyError_def shift_def
      map_stack_def split: prod.splits)

lemma callsites_Given:
  "e Hook_raw_frames = Inr (Frames fs) \<Longrightarrow> fst (callsites fresh (Given e) h) = map_parse fs"
  by (simp add: callsites_def callsites_try_def read_stack_def is_StackOnlyError_def
      map_stack_def split: prod.splits)

lemma callsites_Inr:
  "fst (callsites fresh error h) = Inr ds \<Longrightarrow>
   \<exists>fs. read_stack fresh error Hook_raw_frames = Inr (Frames fs) \<and>
        map_parse (if is_StackOnlyError error then tl fs else fs) = Inr ds"
  by (auto simp: callsites_def callsites_try_def shift_def map_stack_def Let_def
      split: prod.splits sum.splits if_splits stackval.splits)

lemma keys_expanded:
  "keys (expanded cs) =
    [''this'', ''typeName'', ''function'', ''functionName'', ''methodName'',
     ''fileName'', ''lineNumber'', ''columnNumber'', ''evalOrigin'', ''isToplevel'',
     ''isEval'', ''isNative'', ''isConstructor'', ''isAsync'', ''isPromiseAll'',
     ''promiseIndex'']"
  by (simp add: expanded_def keys_def)

lemma supports_all_frame: "supports_all (frame t f fn file l c)"
  by (simp add: supports_all_def frame_def CALLSITE_METHODS_def)

text \<open>
  C2. On a runtime that hands out raw frames, \<open>callsites()\<close> with no argument returns
  the descriptors of all raw frames but the first, in order, and \<open>callsites(error)\<close>
  with an error of the caller returns the descriptors of all its raw frames, in order
  (each frame answering every probe).
\<close>

theorem callsites_frames:
  assumes "fresh Hook_raw_frames = Inr (Frames fs)" and "e Hook_raw_frames = Inr (Frames gs)"
    and "list_all supports_all (tl fs)" and "list_all supports_all gs"
  shows "fst (callsites fresh Default h) = Inr (map expanded (tl fs))
       \<and> fst (callsites fresh (Given e) h) = Inr (map expanded gs)"
  using assms by (simp add: callsites_Default callsites_Given map_parse_ok)

lemma expanded_fixture: "map expanded (tl fixture_stack) = [fixture_descriptor]"
  by (simp add: fixture_stack_def fixture_descriptor_def expanded_def probe_def frame_def)

lemma supports_fixture: "list_all supports_all fixture_stack"
  by (simp add: fixture_stack_def supports_all_frame)

lemma fixture_capture:
  "fst (callsites (v8_error fixture_stack) Default h) = Inr [fixture_descriptor]"
proof -
  have "fst (callsites (v8_error fixture_stack) Default h) = map_parse (tl fixture_stack)"
    by (rule callsites_Default) (simp add: v8_error_def)
  also have "\<dots> = Inr (map expanded (tl fixture_stack))"
    by (rule map_parse_ok) (simp add: fixture_stack_def supports_all_frame)
  finally show ?thesis by (simp only: expanded_fixture)
qed

theorem callsites_frames_witness:
  "v8_error fixture_stack Hook_raw_frames = Inr (Frames fixture_stack)
   \<and> list_all supports_all (tl fixture_stack) \<and> list_all supports_all fixture_stack
   \<and> fst (callsites (v8_error fixture_stack) Default Hook_undefined) = Inr [fixture_descriptor]
   \<and> fst (callsites (v8_error []) (Given (v8_error fixture_stack)) Hook_undefined)
       = Inr [expanded (hd fixture_stack), fixture_descriptor]"
proof -
  have a: "v8_error fixture_stack Hook_raw_frames = Inr (Frames fixture_stack)"
    by (simp add: v8_error_def)
  have c: "list_all supports_all (tl fixture_stack)"
    by (simp add: fixture_stack_def supports_all_frame)
  have e: "map expanded fixture_stack = [expanded (hd fixture_stack), fixture_descriptor]"
    using expanded_fixture by (simp add: fixture_stack_def)
  show ?thesis
    using callsites_frames [of "v8_error fixture_stack" fixture_stack "v8_error fixture_stack"
        fixture_stack Hook_undefined, OF a a c supports_fixture]
      callsites_Given [of "v8_error fixture_stack" fixture_stack "v8_error []" Hook_undefined, OF a]
      callsites_Given [of "v8_error fixture_stack" fixture_stack "v8_error fixture_stack" Hook_undefined, OF a]
      a c supports_fixture
    by (simp only: expanded_fixture e)
qed

text \<open>
  C5, as the code has it. Every descriptor that \<open>callsites\<close> returns has exactly the
  sixteen keys \<open>this\<close>, \<open>typeName\<close>, \<open>function\<close>, \<open>functionName\<close>, \<open>methodName\<close>,
  \<open>fileName\<close>, \<open>lineNumber\<close>, \<open>columnNumber\<close>, \<open>evalOrigin\<close>, \<open>isToplevel\<close>, \<open>isEval\<close>,
  \<open>isNative\<close>, \<open>isConstructor\<close>, \<open>isAsync\<close>, \<open>isPromiseAll\<close>, \<open>promiseIndex\<close>, in
  this order: one key per probe, the probe's name with its first \<open>get\<close> removed and its
  first letter in lower case, and no other key. The receiver's key is \<open>this\<close>.
\<close>

theorem descriptor_keys:
  assumes "fst (callsites fresh error h) = Inr ds" and "d \<in> set ds"
  shows "keys d =
    [''this'', ''typeName'', ''function'', ''functionName'', ''methodName'',
     ''fileName'', ''lineNumber'', ''columnNumber'', ''evalOrigin'', ''isToplevel'',
     ''isEval'', ''isNative'', ''isConstructor'', ''isAsync'', ''isPromiseAll'',
     ''promiseIndex'']
    \<and> map Inr (keys d) = map property_of CALLSITE_METHODS
    \<and> distinct (keys d)"
proof -
  obtain fs where "ds = map expanded fs"
    using callsites_Inr [OF assms(1)] map_parse_Inr by blast
  then obtain cs where d: "d = expanded cs" using assms(2) by auto
  show ?thesis unfolding d property_of_methods by (simp add: keys_expanded)
qed

theorem descriptor_keys_witness:
  "fst (callsites (v8_error fixture_stack) Default Hook_undefined) = Inr [fixture_descriptor]
   \<and> fixture_descriptor \<in> set [fixture_descriptor]
   \<and> keys fixture_descriptor =
    [''this'', ''typeName'', ''function'', ''functionName'', ''methodName'',
     ''fileName'', ''lineNumber'', ''columnNumber'', ''evalOrigin'', ''isToplevel'',
     ''isEval'', ''isNative'', ''isConstructor'', ''isAsync'', ''isPromiseAll'',
     ''promiseIndex'']"
  using descriptor_keys [OF fixture_capture [of Hook_undefined], where d = fixture_descriptor]
    fixture_capture [of Hook_undefined]
  by simp

text \<open>
  C5 as stated asks for a key \<open>receiver\<close>: the descriptor of the fixture's call site has
  none, and has \<open>this\<close>.
\<close>

theorem receiver_key_counterexample:
  "fst (callsites (v8_error fixture_stack) Default Hook_undefined) = Inr [fixture_descriptor]
   \<and> ''receiver'' \<notin> set (keys fixture_descriptor)
   \<and> ''this'' \<in> set (keys fixture_descriptor)"
  by (simp add: fixture_capture) (simp add: fixture_descriptor_def keys_def)

text \<open>
  C6, as the code has it. On a runtime where the stack of a fresh error reads as a string
  or as \<open>undefined\<close>, \<open>callsites()\<close> with no argument raises the \<open>TypeError\<close> of the
  failed \<open>stack.shift()\<close>, restores the hook, and does not return the empty sequence.
\<close>

theorem callsites_without_frames:
  assumes "fresh Hook_raw_frames = Inr (Text s) \<or> fresh Hook_raw_frames = Inr Missing"
  shows "callsites fresh Default h =
           (Inl (TypeError (if fresh Hook_raw_frames = Inr Missing then ''stack is undefined''
                            else ''stack.shift is not a function'')), h)
       \<and> fst (callsites fresh Default h) \<noteq> Inr []"
  using assms
  by (auto simp: callsites_def callsites_try_def read_stack_def is_StackOnlyError_def shift_def)

theorem callsites_without_frames_witness:
  "text_error Hook_raw_frames = Inr (Text ''@file:///test/fixtures/callsites.mjs:7:28'')
   \<and> callsites text_error Default (Hook_function 7) =
        (Inl (TypeError ''stack.shift is not a function''), Hook_function 7)
   \<and> fst (callsites text_error Default (Hook_function 7)) \<noteq> Inr []"
proof -
  have a: "text_error Hook_raw_frames = Inr (Text ''@file:///test/fixtures/callsites.mjs:7:28'')"
    by (simp add: text_error_def)
  show ?thesis
    using callsites_without_frames [of text_error _ "Hook_function 7", OF disjI1, OF a] a
    by simp
qed

text \<open>
  C6 as stated asks for an \<open>UnsupportedPlatform\<close> signal: on a runtime whose stack is a
  string the exception is a \<open>TypeError\<close>.
\<close>

theorem unsupported_platform_counterexample:
  "callsites text_error Default Hook_undefined =
     (Inl (TypeError ''stack.shift is not a function''), Hook_undefined)
   \<and> fst (callsites text_error Default Hook_undefined) \<noteq> Inl UnsupportedPlatform"
  by (simp add: callsites_def callsites_try_def read_stack_def is_StackOnlyError_def shift_def
      text_error_def)

lemma same_expanded: "same_frame a b \<Longrightarrow> same_descriptor (expanded a) (expanded b)"
  by (simp add: same_frame_def same_descriptor_def keys_expanded CALLSITE_METHODS_def)
     (simp add: expanded_def obj_get_def probe_def)

lemma list_all2_tl: "list_all2 P xs ys \<Longrightarrow> list_all2 P (tl xs) (tl ys)"
  by (cases xs; cases ys) auto

text \<open>
  C8. Two captures whose raw stacks answer every probe alike, the receiver and the function
  apart, return descriptor sequences of the same length whose corresponding descriptors
  have the same keys and the same values on every key but \<open>this\<close> and \<open>function\<close>; so
  \<open>fileName\<close>, \<open>lineNumber\<close>, \<open>columnNumber\<close> and \<open>functionName\<close> agree.
\<close>

theorem callsites_deterministic:
  assumes "fresh1 Hook_raw_frames = Inr (Frames fs1)" and "fresh2 Hook_raw_frames = Inr (Frames fs2)"
    and "list_all2 same_frame fs1 fs2"
    and "fst (callsites fresh1 Default h1) = Inr ds1" and "fst (callsites fresh2 Default h2) = Inr ds2"
  shows "list_all2 same_descriptor ds1 ds2"
proof -
  have 1: "ds1 = map expanded (tl fs1)"
    using assms(1,4) map_parse_Inr by (simp add: callsites_Default)
  have 2: "ds2 = map expanded (tl fs2)"
    using assms(2,5) map_parse_Inr by (simp add: callsites_Default)
  have "list_all2 same_frame (tl fs1) (tl fs2)" using assms(3) by (rule list_all2_tl)
  then show ?thesis unfolding 1 2
    by (simp add: list_all2_map1 list_all2_map2) (erule list_all2_mono, rule same_expanded)
qed

lemma run_capture:
  "list_all supports_all (tl fs) \<Longrightarrow>
   fst (callsites (v8_error fs) Default h) = Inr (map expanded (tl fs))"
  using callsites_Default [of "v8_error fs" fs h] by (simp add: v8_error_def map_parse_ok)

theorem callsites_deterministic_witness:
  "list_all2 same_frame first_run second_run
   \<and> fst (callsites (v8_error first_run) Default Hook_undefined) = Inr (map expanded (tl first_run))
   \<and> fst (callsites (v8_error second_run) Default Hook_undefined) = Inr (map expanded (tl second_run))
   \<and> list_all2 same_descriptor (map expanded (tl first_run)) (map expanded (tl second_run))
   \<and> obj_get (expanded (first_run ! 1)) ''this'' = Ref 1
   \<and> obj_get (expanded (second_run ! 1)) ''this'' = Ref 3"
proof -
  have a1: "v8_error first_run Hook_raw_frames = Inr (Frames first_run)"
    and a2: "v8_error second_run Hook_raw_frames = Inr (Frames second_run)"
    by (simp_all add: v8_error_def)
  have sf: "list_all2 same_frame first_run second_run"
    by (simp add: first_run_def second_run_def same_frame_def CALLSITE_METHODS_def frame_def)
  have r1: "fst (callsites (v8_error first_run) Default Hook_undefined) = Inr (map expanded (tl first_run))"
    by (rule run_capture) (simp add: first_run_def supports_all_frame)
  have r2: "fst (callsites (v8_error second_run) Default Hook_undefined) = Inr (map expanded (tl second_run))"
    by (rule run_capture) (simp add: second_run_def supports_all_frame)
  have t: "obj_get (expanded (first_run ! 1)) ''this'' = Ref 1"
    "obj_get (expanded (second_run ! 1)) ''this'' = Ref 3"
    by (simp_all add: first_run_def second_run_def expanded_def probe_def frame_def obj_get_def)
  show ?thesis
    using callsites_deterministic [OF a1 a2 sf r1 r2] sf r1 r2 t by simp
qed

subsection \<open>Serialization\<close>

lemma keys_toJSON_loop:
  "distinct ks \<Longrightarrow> set ks \<inter> set (keys ob) = {} \<Longrightarrow>
   keys (toJSON_loop this ks ob) = keys ob @ filter (\<lambda>k. truthy (obj_get this k)) ks"
proof (induction ks arbitrary: ob)
  case Nil
  then show ?case by simp
next
  case (Cons k ks)
  show ?case
  proof (cases "truthy (obj_get this k)")
    case True
    have "set ks \<inter> set (keys (obj_set k (obj_get this k) ob)) = {}"
      using Cons.prems by (auto simp: keys_obj_set)
    moreover have "k \<notin> set (keys ob)" using Cons.prems by auto
    ultimately show ?thesis
      using Cons.IH [of "obj_set k (obj_get this k) ob"] Cons.prems True
      by (simp add: keys_obj_set)
  next
    case False
    then show ?thesis using Cons.IH [of ob] Cons.prems by simp
  qed
qed

lemma obj_get_toJSON_loop:
  "obj_get (toJSON_loop this ks ob) k =
     (if k \<in> set ks \<and> truthy (obj_get this k) then obj_get this k else obj_get ob k)"
  by (induction ks arbitrary: ob) (auto simp: obj_get_obj_set Let_def)

lemma distinct_properties: "distinct properties"
  by (simp add: properties_def)

lemma keys_toJSON: "keys (toJSON r) = filter (\<lambda>k. truthy (obj_get (props r) k)) properties"
  using keys_toJSON_loop [OF distinct_properties, of "[]" "props r"]
  by (simp add: toJSON_def keys_def)

lemma values_toJSON:
  "k \<in> set (keys (toJSON r)) \<Longrightarrow> obj_get (toJSON r) k = obj_get (props r) k"
  by (simp add: keys_toJSON) (simp add: toJSON_def obj_get_toJSON_loop)

text \<open>
  C4. For a record with any property values, the keys of \<open>toJSON\<close> are the declared
  properties whose current value is truthy, in declared order: none twice, none from
  outside the list, each with the value the record holds.
\<close>

theorem toJSON_keys_exact:
  "keys (toJSON r) = filter (\<lambda>k. truthy (obj_get (props r) k)) properties
   \<and> distinct (keys (toJSON r))
   \<and> set (keys (toJSON r)) \<subseteq> set properties
   \<and> map (obj_get (toJSON r)) (keys (toJSON r)) = map (obj_get (props r)) (keys (toJSON r))"
proof (intro conjI)
  show "keys (toJSON r) = filter (\<lambda>k. truthy (obj_get (props r) k)) properties"
    by (rule keys_toJSON)
  show "distinct (keys (toJSON r))"
    by (simp add: keys_toJSON distinct_properties)
  show "set (keys (toJSON r)) \<subseteq> set properties"
    by (simp add: keys_toJSON)
  show "map (obj_get (toJSON r)) (keys (toJSON r)) = map (obj_get (props r)) (keys (toJSON r))"
    by (rule map_cong [OF refl]) (rule values_toJSON)
qed

subsection \<open>Constructing a record\<close>

lemma lastIndexOf_found: "(0 \<le> lastIndexOf s c) = (c \<in> set s)"
  by (induction s) (auto simp: Let_def)

lemma substring_lastIndexOf:
  "substring s (lastIndexOf s c + 1) = rev (takeWhile (\<lambda>x. x \<noteq> c) (rev s))"
proof (induction s)
  case Nil
  then show ?case by (simp add: substring_def)
next
  case (Cons x xs)
  show ?case
  proof (cases "c \<in> set xs")
    case True
    then have r: "0 \<le> lastIndexOf xs c" by (simp add: lastIndexOf_found)
    then have "nat (lastIndexOf xs c + 1 + 1) = Suc (nat (lastIndexOf xs c + 1))" by simp
    then have "substring (x # xs) (lastIndexOf (x # xs) c + 1) = substring xs (lastIndexOf xs c + 1)"
      using r by (simp add: substring_def Let_def max_def)
    moreover have "takeWhile (\<lambda>x. x \<noteq> c) (rev xs @ [x]) = takeWhile (\<lambda>x. x \<noteq> c) (rev xs)"
      using True by (intro takeWhile_append1 [where x = c]) auto
    ultimately show ?thesis using Cons.IH by simp
  next
    case False
    then have r: "\<not> 0 \<le> lastIndexOf xs c" by (simp add: lastIndexOf_found)
    have "takeWhile (\<lambda>x. x \<noteq> c) (rev xs @ [x]) = rev xs @ takeWhile (\<lambda>x. x \<noteq> c) [x]"
      using False by (intro takeWhile_append2) auto
    then show ?thesis using r by (simp add: substring_def Let_def)
  qed
qed

lemma path_tail_Str: "path_tail (Str p) = Inr (Str (after_last_slash p))"
  by (simp add: path_tail_def after_last_slash_def substring_lastIndexOf)

lemma path_tail_Inr: "path_tail v = Inr w \<Longrightarrow> \<exists>p. v = Str p \<and> w = Str (after_last_slash p)"
  by (cases v) (simp_all add: path_tail_def after_last_slash_def substring_lastIndexOf)

text \<open>The record the constructor body builds, property by property.\<close>

lemma constructor_body_props:
  "constructor_body e od =
       [(''@timestamp'', Str (now_iso e)),
        (''message'', Str ''''),
        (''data'', Str ''''),
        (''log.level'', Str ''''),
        (''log.logger'', Str ''unknown''),
        (''log.origin.file.column'', obj_get od ''column''),
        (''log.origin.file.line'', obj_get od ''line''),
        (''log.origin.file.name'', obj_get od ''fileName''),
        (''log.origin.file.path'', obj_get od ''path''),
        (''log.origin.function'', obj_get od ''function''),
        (''error.code'', Str ''''),
        (''error.id'', Str ''''),
        (''error.message'', Str ''''),
        (''error.stack_trace'', Str ''''),
        (''error.type'', Str ''''),
        (''service.name'', Str ''''),
        (''service.version'', Str ''''),
        (''service.environment'', Str ''''),
        (''service.id'', Str ''''),
        (''process.args'', Arr (process_args e)),
        (''process.args_count'', Num (int (length (process_args e)))),
        (''event.duration'', Str ''''),
        (''http.version'', Str ''''),
        (''http.request.id'', Str ''''),
        (''http.request.method'', Str ''''),
        (''http.request.mime_type'', Str ''''),
        (''http.response.body.content'', Str ''''),
        (''http.response.mime_type'', Str ''''),
        (''http.response.status_code'', Num 0),
        (''url.domain'', Str ''''),
        (''url.extension'', Str ''''),
        (''url.fragment'', Str ''''),
        (''url.full'', Str ''''),
        (''url.password'', Str ''''),
        (''url.path'', Str ''''),
        (''url.port'', Num 0),
        (''url.query'', Str ''''),
        (''url.scheme'', Str ''''),
        (''url.username'', Str '''')]"
  by (simp add: constructor_body_def)

lemma constructor_body_get:
  "obj_get (constructor_body e od) ''log.logger'' = Str ''unknown''"
  "obj_get (constructor_body e od) ''log.origin.file.column'' = obj_get od ''column''"
  "obj_get (constructor_body e od) ''log.origin.file.line'' = obj_get od ''line''"
  "obj_get (constructor_body e od) ''log.origin.file.name'' = obj_get od ''fileName''"
  "obj_get (constructor_body e od) ''log.origin.file.path'' = obj_get od ''path''"
  "obj_get (constructor_body e od) ''log.origin.function'' = obj_get od ''function''"
  "obj_get (constructor_body e od) ''process.args'' = Arr (process_args e)"
  "obj_get (constructor_body e od) ''process.args_count'' = Num (int (length (process_args e)))"
  by (simp_all add: constructor_body_props obj_get_def)

lemma LogRecord_new_Inr:
  "fst (LogRecord_new e h) = Inr r \<Longrightarrow>
   \<exists>od. fst (callsites (marker e) Default h) = Inr (callsites_private r) \<and>
        getOriginDetails (callsites_private r) = Inr od \<and>
        props r = constructor_body e od"
  by (auto simp: LogRecord_new_def split: prod.splits sum.splits)

lemma or_else_falsy: "\<not> truthy (or_else a b) \<Longrightarrow> or_else a b = b"
  by (simp add: or_else_def split: if_splits)

lemma getOriginDetails_Inr:
  assumes "getOriginDetails ds = Inr od"
  shows "2 < length ds \<and>
   obj_get od ''column'' = or_else (obj_get (ds ! 2) ''columnNumber'') (Num 0) \<and>
   obj_get od ''line'' = or_else (obj_get (ds ! 2) ''lineNumber'') (Num 0) \<and>
   obj_get od ''path'' = or_else (obj_get (ds ! 2) ''fileName'') (Str '''') \<and>
   obj_get od ''function'' = or_else (obj_get (ds ! 2) ''functionName'') (Str ''none'') \<and>
   (\<exists>p. or_else (obj_get (ds ! 2) ''fileName'') (Str '''') = Str p \<and>
        obj_get od ''fileName'' = Str (after_last_slash p))"
proof -
  let ?path = "or_else (obj_get (ds ! 2) ''fileName'') (Str '''')"
  have len: "2 < length ds"
    using assms by (simp add: getOriginDetails_def index_def split: if_splits)
  obtain fileName where fn: "(if truthy ?path then path_tail ?path else Inr (Str '''')) = Inr fileName"
    and od: "od = [(''column'', or_else (obj_get (ds ! 2) ''columnNumber'') (Num 0)),
                   (''line'', or_else (obj_get (ds ! 2) ''lineNumber'') (Num 0)),
                   (''path'', ?path),
                   (''fileName'', fileName),
                   (''function'', or_else (obj_get (ds ! 2) ''functionName'') (Str ''none''))]"
    using assms len by (auto simp: getOriginDetails_def index_def Let_def split: sum.splits)
  have "\<exists>p. ?path = Str p \<and> fileName = Str (after_last_slash p)"
  proof (cases "truthy ?path")
    case True
    then show ?thesis using fn path_tail_Inr by simp
  next
    case False
    then have p: "?path = Str ''''" by (rule or_else_falsy)
    have f: "fileName = Str (after_last_slash '''')"
      using fn False by (simp add: after_last_slash_def)
    show ?thesis using p f by (intro exI [of _ "''''"] conjI)
  qed
  then show ?thesis using len by (simp add: od obj_get_def)
qed

lemma getOriginDetails_ok:
  assumes "2 < length ds" and "string_or_falsy (obj_get (ds ! 2) ''fileName'')"
  shows "\<exists>od. getOriginDetails ds = Inr od"
proof -
  define path where "path = or_else (obj_get (ds ! 2) ''fileName'') (Str '''')"
  have "\<exists>p. path = Str p"
    using assms(2) unfolding path_def or_else_def string_or_falsy_def
    by (cases "obj_get (ds ! 2) ''fileName''") auto
  then obtain p where "path = Str p" ..
  then show ?thesis
    using assms(1) by (simp add: getOriginDetails_def index_def Let_def path_def [symmetric] path_tail_Str)
qed

lemma getOriginDetails_short: "length ds < 3 \<Longrightarrow> getOriginDetails ds = Inl (TypeError ''cs is undefined'')"
  by (simp add: getOriginDetails_def index_def)

lemma sample_capture:
  "fst (callsites (marker sample_env) Default h) = Inr (map expanded (tl record_stack))"
  unfolding sample_env_def by simp (rule run_capture, simp add: record_stack_def supports_all_frame)

lemma shallow_capture:
  "fst (callsites (marker shallow_env) Default h) = Inr [fixture_descriptor]"
  unfolding shallow_env_def by (simp add: fixture_capture)

lemma expanded_frame:
  "expanded (frame t f fn file l c) =
    [(''this'', t), (''typeName'', Null), (''function'', f),
     (''functionName'', Str fn), (''methodName'', Null), (''fileName'', Str file),
     (''lineNumber'', Num l), (''columnNumber'', Num c), (''evalOrigin'', Undefined),
     (''isToplevel'', Bool True), (''isEval'', Bool False), (''isNative'', Bool False),
     (''isConstructor'', Bool False), (''isAsync'', Bool False), (''isPromiseAll'', Bool False),
     (''promiseIndex'', Null)]"
  by (simp add: expanded_def probe_def frame_def)

lemma sample_origin:
  "getOriginDetails (map expanded (tl record_stack)) =
     Inr [(''column'', Num 28), (''line'', Num 7),
          (''path'', Str ''file:///test/fixtures/record.mjs''),
          (''fileName'', Str ''record.mjs''), (''function'', Str ''getRecord'')]"
  by (simp add: record_stack_def expanded_frame getOriginDetails_def index_def obj_get_def
      or_else_def path_tail_def substring_def)

lemma sample_construction: "fst (LogRecord_new sample_env h) = Inr sample_record"
proof -
  obtain out h1 where c: "callsites (marker sample_env) Default h = (out, h1)"
    by (cases "callsites (marker sample_env) Default h")
  then have out: "out = Inr (map expanded (tl record_stack))"
    using sample_capture [of h] by simp
  show ?thesis
    unfolding LogRecord_new_def c out
    by (simp add: sample_origin sample_record_def constructor_body_props obj_get_def)
       (simp add: sample_env_def process_args_def)
qed

lemma shallow_construction:
  "fst (LogRecord_new shallow_env h) = Inl (TypeError ''cs is undefined'')"
proof -
  obtain out h1 where c: "callsites (marker shallow_env) Default h = (out, h1)"
    by (cases "callsites (marker shallow_env) Default h")
  then have out: "out = Inr [fixture_descriptor]"
    using shallow_capture [of h] by simp
  show ?thesis
    unfolding LogRecord_new_def c out by (simp add: getOriginDetails_short)
qed

text \<open>
  C3. For every record that construction yields, the frame read is the one at index 2 of the
  captured sequence, and the origin properties are: column its \<open>columnNumber\<close> if truthy,
  else 0; line its \<open>lineNumber\<close> if truthy, else 0; path its \<open>fileName\<close> if truthy, else
  the empty string; file name what follows the last \<open>/\<close> of the path (empty for the empty
  path); function its \<open>functionName\<close> if truthy, else \<open>none\<close>.
\<close>

theorem origin_fields:
  assumes "fst (LogRecord_new e h) = Inr r"
  shows "fst (callsites (marker e) Default h) = Inr (callsites_private r)
     \<and> 2 < length (callsites_private r)
     \<and> obj_get (props r) ''log.origin.file.column'' =
         (if truthy (obj_get (callsites_private r ! 2) ''columnNumber'')
          then obj_get (callsites_private r ! 2) ''columnNumber'' else Num 0)
     \<and> obj_get (props r) ''log.origin.file.line'' =
         (if truthy (obj_get (callsites_private r ! 2) ''lineNumber'')
          then obj_get (callsites_private r ! 2) ''lineNumber'' else Num 0)
     \<and> obj_get (props r) ''log.origin.file.path'' =
         (if truthy (obj_get (callsites_private r ! 2) ''fileName'')
          then obj_get (callsites_private r ! 2) ''fileName'' else Str '''')
     \<and> (\<exists>p. obj_get (props r) ''log.origin.file.path'' = Str p
            \<and> obj_get (props r) ''log.origin.file.name'' = Str (after_last_slash p))
     \<and> obj_get (props r) ''log.origin.function'' =
         (if truthy (obj_get (callsites_private r ! 2) ''functionName'')
          then obj_get (callsites_private r ! 2) ''functionName'' else Str ''none'')"
proof -
  obtain od where c: "fst (callsites (marker e) Default h) = Inr (callsites_private r)"
    and od: "getOriginDetails (callsites_private r) = Inr od"
    and p: "props r = constructor_body e od"
    using LogRecord_new_Inr [OF assms] by blast
  show ?thesis
    using getOriginDetails_Inr [OF od] c
    by (simp add: p constructor_body_get) (simp add: or_else_def)
qed

theorem origin_fields_witness:
  "fst (LogRecord_new sample_env Hook_undefined) = Inr sample_record
   \<and> obj_get (callsites_private sample_record ! 2) ''columnNumber'' = Num 28
   \<and> obj_get (props sample_record) ''log.origin.file.column'' = Num 28
   \<and> obj_get (props sample_record) ''log.origin.file.line'' = Num 7
   \<and> obj_get (props sample_record) ''log.origin.file.path'' = Str ''file:///test/fixtures/record.mjs''
   \<and> obj_get (props sample_record) ''log.origin.file.name'' = Str ''record.mjs''
   \<and> obj_get (props sample_record) ''log.origin.function'' = Str ''getRecord''"
proof -
  have a: "fst (LogRecord_new sample_env Hook_undefined) = Inr sample_record"
    by (rule sample_construction)
  have b: "callsites_private sample_record ! 2
             = expanded (frame Undefined Undefined ''getRecord'' ''file:///test/fixtures/record.mjs'' 7 28)"
    by (simp add: sample_record_def record_stack_def)
  have c: "obj_get (props sample_record) ''log.origin.file.name'' = Str ''record.mjs''"
    by (simp add: sample_record_def obj_get_def)
  show ?thesis
    using origin_fields [OF a] a c unfolding b expanded_frame by (simp add: obj_get_def [of "_ # _"])
qed

text \<open>
  C9. Construction reads index 2 of the captured sequence with no bounds check. When
  \<open>callsites()\<close> returned at least 3 descriptors (and \<open>fileName\<close> of the third is a string or
  falsy, as \<open>CallSite.getFileName\<close> is declared), the read is in bounds and construction
  yields a record; when it returned fewer than 3, the read gives no frame and construction
  raises a \<open>TypeError\<close>: no record with defaulted origin properties is made.
\<close>

theorem origin_frame_bounds:
  assumes "fst (callsites (marker e) Default h) = Inr ds"
  shows "(3 \<le> length ds \<and> string_or_falsy (obj_get (ds ! 2) ''fileName'') \<longrightarrow>
            index ds 2 = Some (ds ! 2) \<and>
            (\<exists>r. fst (LogRecord_new e h) = Inr r \<and> callsites_private r = ds))
       \<and> (length ds < 3 \<longrightarrow>
            index ds 2 = None \<and> fst (LogRecord_new e h) = Inl (TypeError ''cs is undefined''))"
proof -
  obtain out h1 where c: "callsites (marker e) Default h = (out, h1)"
    by (cases "callsites (marker e) Default h")
  then have out: "out = Inr ds" using assms by simp
  have "\<exists>r. fst (LogRecord_new e h) = Inr r \<and> callsites_private r = ds"
    if deep: "3 \<le> length ds" and typed: "string_or_falsy (obj_get (ds ! 2) ''fileName'')"
  proof -
    have "2 < length ds" using deep by simp
    then obtain od where "getOriginDetails ds = Inr od"
      using getOriginDetails_ok [of ds] typed by blast
    then show ?thesis unfolding LogRecord_new_def c out by simp
  qed
  moreover have "fst (LogRecord_new e h) = Inl (TypeError ''cs is undefined'')" if "length ds < 3"
    unfolding LogRecord_new_def c out using that by (simp add: getOriginDetails_short)
  ultimately show ?thesis by (auto simp: index_def)
qed

theorem origin_frame_bounds_witness:
  "fst (callsites (marker sample_env) Default Hook_undefined) = Inr (map expanded (tl record_stack))
   \<and> length (map expanded (tl record_stack)) = 3
   \<and> string_or_falsy (obj_get (map expanded (tl record_stack) ! 2) ''fileName'')
   \<and> fst (LogRecord_new sample_env Hook_undefined) = Inr sample_record
   \<and> fst (callsites (marker shallow_env) Default Hook_undefined) = Inr [fixture_descriptor]
   \<and> length [fixture_descriptor] = 1
   \<and> index [fixture_descriptor] 2 = None
   \<and> fst (LogRecord_new shallow_env Hook_undefined) = Inl (TypeError ''cs is undefined'')"
proof -
  have s: "string_or_falsy (obj_get (map expanded (tl record_stack) ! 2) ''fileName'')"
    by (simp add: record_stack_def expanded_frame obj_get_def string_or_falsy_def)
  have l: "length (map expanded (tl record_stack)) = 3"
    by (simp add: record_stack_def)
  show ?thesis
    using origin_frame_bounds [OF sample_capture [of Hook_undefined]]
      origin_frame_bounds [OF shallow_capture [of Hook_undefined]]
      s l sample_capture [of Hook_undefined] shallow_capture [of Hook_undefined]
      sample_construction [of Hook_undefined]
    by simp
qed

subsection \<open>Serializing a fresh record\<close>

lemma in_keys_toJSON:
  "(k \<in> set (keys (toJSON r))) = (k \<in> set properties \<and> truthy (obj_get (props r) k))"
  by (auto simp: keys_toJSON)

text \<open>
  C10. For a freshly constructed record, \<open>toJSON\<close> always has the key \<open>process.args\<close>,
  holding the argument list even when it is empty, and leaves \<open>process.args_count\<close> out
  exactly when the count is 0.
\<close>

theorem fresh_process_args:
  assumes "fst (LogRecord_new e h) = Inr r"
  shows "''process.args'' \<in> set (keys (toJSON r))
       \<and> obj_get (toJSON r) ''process.args'' = Arr (process_args e)
       \<and> (''process.args_count'' \<notin> set (keys (toJSON r))) = (length (process_args e) = 0)"
proof -
  obtain od where p: "props r = constructor_body e od"
    using LogRecord_new_Inr [OF assms] by blast
  have m: "''process.args'' \<in> set properties" "''process.args_count'' \<in> set properties"
    by (simp_all add: properties_def)
  have a: "''process.args'' \<in> set (keys (toJSON r))"
    by (simp add: in_keys_toJSON m p constructor_body_get)
  show ?thesis
    using a values_toJSON [OF a]
    by (simp add: in_keys_toJSON m p constructor_body_get)
qed

theorem fresh_process_args_witness:
  "fst (LogRecord_new sample_env Hook_undefined) = Inr sample_record
   \<and> process_args sample_env = []
   \<and> ''process.args'' \<in> set (keys (toJSON sample_record))
   \<and> obj_get (toJSON sample_record) ''process.args'' = Arr []
   \<and> ''process.args_count'' \<notin> set (keys (toJSON sample_record))"
proof -
  have e: "process_args sample_env = []"
    by (simp add: process_args_def sample_env_def)
  show ?thesis
    using fresh_process_args [OF sample_construction [of Hook_undefined]]
      sample_construction [of Hook_undefined] e
    by simp
qed

text \<open>
  C7, as the code has it. With \<open>r0\<close> a freshly constructed record and \<open>r\<close> any record:
  \<open>toJSON r\<close> omits every declared property that holds its construction-time value when
  that value is falsy; it includes only properties whose current value is truthy, each with
  that value, and every such declared property, in declared order. Truthiness decides, not
  a difference from the default: \<open>log.logger\<close> is constructed as \<open>unknown\<close> and is
  serialized with that value.
\<close>

theorem toJSON_truthy_fields:
  assumes "fst (LogRecord_new e h) = Inr r0"
  shows "(\<forall>k\<in>set properties.
            obj_get (props r) k = obj_get (props r0) k \<and> \<not> truthy (obj_get (props r0) k) \<longrightarrow>
            k \<notin> set (keys (toJSON r)))
       \<and> (\<forall>k\<in>set (keys (toJSON r)).
            truthy (obj_get (props r) k) \<and> obj_get (toJSON r) k = obj_get (props r) k)
       \<and> (\<forall>k\<in>set properties. truthy (obj_get (props r) k) \<longrightarrow> k \<in> set (keys (toJSON r)))
       \<and> subseq (keys (toJSON r)) properties
       \<and> obj_get (props r0) ''log.logger'' = Str ''unknown''
       \<and> obj_get (toJSON r0) ''log.logger'' = Str ''unknown''"
proof -
  obtain od where p: "props r0 = constructor_body e od"
    using LogRecord_new_Inr [OF assms] by blast
  have l: "''log.logger'' \<in> set (keys (toJSON r0))"
    by (simp add: in_keys_toJSON p constructor_body_get) (simp add: properties_def)
  have "subseq (keys (toJSON r)) properties"
    by (simp add: keys_toJSON)
  then show ?thesis
    using values_toJSON [OF l] by (simp add: in_keys_toJSON values_toJSON p constructor_body_get)
qed

theorem toJSON_truthy_fields_witness:
  "fst (LogRecord_new sample_env Hook_undefined) = Inr sample_record
   \<and> ''message'' \<in> set properties
   \<and> \<not> truthy (obj_get (props sample_record) ''message'')
   \<and> ''message'' \<notin> set (keys (toJSON sample_record))
   \<and> ''log.origin.file.line'' \<in> set (keys (toJSON sample_record))
   \<and> obj_get (toJSON sample_record) ''log.origin.file.line'' = Num 7
   \<and> subseq (keys (toJSON sample_record)) properties
   \<and> obj_get (toJSON sample_record) ''log.logger'' = Str ''unknown''"
proof -
  have m: "''message'' \<in> set properties" "''log.origin.file.line'' \<in> set properties"
    by (simp_all add: properties_def)
  have f: "\<not> truthy (obj_get (props sample_record) ''message'')"
    "truthy (obj_get (props sample_record) ''log.origin.file.line'')"
    "obj_get (props sample_record) ''log.origin.file.line'' = Num 7"
    by (simp_all add: sample_record_def obj_get_def)
  note t = toJSON_truthy_fields [OF sample_construction [of Hook_undefined], of sample_record]
  have omit: "\<forall>k\<in>set properties.
      obj_get (props sample_record) k = obj_get (props sample_record) k
      \<and> \<not> truthy (obj_get (props sample_record) k) \<longrightarrow> k \<notin> set (keys (toJSON sample_record))"
    using t by (rule conjunct1)
  have only: "\<forall>k\<in>set (keys (toJSON sample_record)).
      truthy (obj_get (props sample_record) k)
      \<and> obj_get (toJSON sample_record) k = obj_get (props sample_record) k"
    using t by (elim conjE)
  have every: "\<forall>k\<in>set properties.
      truthy (obj_get (props sample_record) k) \<longrightarrow> k \<in> set (keys (toJSON sample_record))"
    using t by (elim conjE)
  have order: "subseq (keys (toJSON sample_record)) properties"
    using t by (elim conjE)
  have logger: "obj_get (toJSON sample_record) ''log.logger'' = Str ''unknown''"
    using t by (elim conjE)
  have 1: "''message'' \<notin> set (keys (toJSON sample_record))"
    using bspec [OF omit m(1)] f(1) by simp
  have 2: "''log.origin.file.line'' \<in> set (keys (toJSON sample_record))"
    using bspec [OF every m(2)] f(2) by simp
  have 3: "obj_get (toJSON sample_record) ''log.origin.file.line'' = Num 7"
    using bspec [OF only 2] f(3) by simp
  show ?thesis
    using 1 2 3 m(1) f(1) order logger sample_construction [of Hook_undefined]
    by (intro conjI)
qed

text \<open>
  C7 as stated has only non-default fields serialized: the fresh record of the sample
  environment serializes \<open>log.logger\<close> with its construction-time default \<open>unknown\<close>.
\<close>

theorem default_logger_counterexample:
  "fst (LogRecord_new sample_env Hook_undefined) = Inr sample_record
   \<and> obj_get (props sample_record) ''log.logger'' = Str ''unknown''
   \<and> ''log.logger'' \<in> set (keys (toJSON sample_record))
   \<and> obj_get (toJSON sample_record) ''log.logger'' = Str ''unknown''"
proof -
  have p: "obj_get (props sample_record) ''log.logger'' = Str ''unknown''"
    by (simp add: sample_record_def obj_get_def)
  have k: "''log.logger'' \<in> set (keys (toJSON sample_record))"
    by (simp add: in_keys_toJSON p) (simp add: properties_def)
  show ?thesis
    using p k values_toJSON [OF k] by (simp add: sample_construction)
qed

end
